theory Spec2Isabelle
  imports Main "HOL-Library.Word"
begin

section \<open>A model of ctrader-live-feed.mjs\<close>

text \<open>
  The file \<^verbatim>\<open>src/ctrader-live-feed.mjs\<close> refreshes an OAuth token once
  (\<^verbatim>\<open>refreshAccessToken\<close>), then opens a TLS socket and drives the cTrader Open API
  handshake from the socket's \<^verbatim>\<open>data\<close> events (\<^verbatim>\<open>startTickStream\<close>). Bytes are
  \<open>8 word\<close>, a Node \<^verbatim>\<open>Buffer\<close> is a list of bytes, JavaScript numbers that hold
  lengths and wire codes are \<open>nat\<close> (they stay far below \<open>2 ^ 53\<close>).
\<close>

type_synonym byte = "8 word"

subsection \<open>Buffer primitives\<close>

text \<open>
  \<^verbatim>\<open>buf.readUInt32BE(0)\<close>: the first four bytes as an unsigned big-endian number.
  Node raises a RangeError when fewer than four bytes are there: \<open>None\<close>.
\<close>

fun readUInt32BE :: "byte list \<Rightarrow> nat option" where
  "readUInt32BE (b0 # b1 # b2 # b3 # rest) =
     Some (unat b0 * 2 ^ 24 + unat b1 * 2 ^ 16 + unat b2 * 2 ^ 8 + unat b3)"
| "readUInt32BE _ = None"

text \<open>
  \<^verbatim>\<open>header.writeUInt32BE(n, 0)\<close> on \<^verbatim>\<open>Buffer.alloc(4)\<close>, as \<^verbatim>\<open>send\<close> builds the
  length prefix. Node raises a RangeError for \<open>n \<ge> 2 ^ 32\<close>: \<open>None\<close>.
\<close>

definition writeUInt32BE :: "nat \<Rightarrow> byte list option" where
  "writeUInt32BE n =
     (if n < 2 ^ 32
      then Some [of_nat (n div 2 ^ 24), of_nat (n div 2 ^ 16), of_nat (n div 2 ^ 8), of_nat n]
      else None)"

text \<open>
  \<^verbatim>\<open>buf.slice(start, end)\<close> and \<^verbatim>\<open>buf.slice(start)\<close> for non-negative indices:
  both ends are clamped to the buffer, an end before the start gives the empty buffer.
\<close>

definition slice_range :: "nat \<Rightarrow> nat \<Rightarrow> byte list \<Rightarrow> byte list" where
  "slice_range start end' buf = take (end' - start) (drop start buf)"

definition slice_from :: "nat \<Rightarrow> byte list \<Rightarrow> byte list" where
  "slice_from start buf = drop start buf"

text \<open>
  The two \<^verbatim>\<open>socket.write\<close> calls of \<^verbatim>\<open>send\<close>: the 4-byte header with the length
  of the encoded envelope, then the envelope.
\<close>

definition wire :: "byte list \<Rightarrow> byte list option" where
  "wire wrapBuf =
     (case writeUInt32BE (length wrapBuf) of
        None \<Rightarrow> None
      | Some header \<Rightarrow> Some (header @ wrapBuf))"

subsection \<open>The frame loop of the data handler\<close>

datatype error =
    RangeError      \<comment> \<open>a Buffer read out of range\<close>
  | DecodeError     \<comment> \<open>protobufjs \<^verbatim>\<open>decode\<close> threw on the bytes it was given\<close>

text \<open>
  An exception that nothing catches ends the process; the result keeps the program
  state at the throw. \<open>Inr\<close> is a normal return.
\<close>

type_synonym 's result = "(error \<times> 's) + 's"

text \<open>
  Lines 172 to 196: the \<^verbatim>\<open>while\<close> loop over \<^verbatim>\<open>recvBuffer\<close>. The loop body after the
  two slices (decode the envelope, dispatch on its payload type) is the parameter
  \<open>h\<close>, applied to \<^verbatim>\<open>msgBuf\<close> and the rest of the program state; \<open>recvBuffer\<close> is
  already cut when \<open>h\<close> runs. The loop returns the buffer it leaves and the state.
\<close>

function data_loop ::
  "(byte list \<Rightarrow> 's \<Rightarrow> 's result) \<Rightarrow> byte list \<Rightarrow> 's \<Rightarrow> (error \<times> 's) + (byte list \<times> 's)"
where
  "data_loop h recvBuffer s =
     (if length recvBuffer \<ge> 4 then
        (case readUInt32BE recvBuffer of
           None \<Rightarrow> Inl (RangeError, s)
         | Some len \<Rightarrow>
             if length recvBuffer < 4 + len then Inr (recvBuffer, s)
             else
               (case h (slice_range 4 (4 + len) recvBuffer) s of
                  Inl e \<Rightarrow> Inl e
                | Inr s' \<Rightarrow> data_loop h (slice_from (4 + len) recvBuffer) s'))
      else Inr (recvBuffer, s))"
  by pat_completeness auto
termination
  by (relation "measure (\<lambda>(h, recvBuffer, s). length recvBuffer)")
     (auto simp: slice_from_def)

declare data_loop.simps [simp del]

text \<open>
  Line 171 and the loop: one \<^verbatim>\<open>data\<close> event appends the chunk to the buffer and runs
  the loop.
\<close>

definition on_chunk ::
  "(byte list \<Rightarrow> 's \<Rightarrow> 's result) \<Rightarrow> byte list \<Rightarrow> byte list \<times> 's \<Rightarrow> (error \<times> 's) + (byte list \<times> 's)"
where
  "on_chunk h chunk bs = (case bs of (recvBuffer, s) \<Rightarrow> data_loop h (recvBuffer @ chunk) s)"

text \<open>A sequence of \<^verbatim>\<open>data\<close> events on one buffer, stopping at an uncaught exception.\<close>

fun on_chunks ::
  "(byte list \<Rightarrow> 's \<Rightarrow> 's result) \<Rightarrow> byte list list \<Rightarrow> byte list \<times> 's \<Rightarrow> (error \<times> 's) + (byte list \<times> 's)"
where
  "on_chunks h [] bs = Inr bs"
| "on_chunks h (chunk # chunks) bs =
     (case on_chunk h chunk bs of
        Inl e \<Rightarrow> Inl e
      | Inr bs' \<Rightarrow> on_chunks h chunks bs')"

text \<open>
  The observer used to speak about frame boundaries: the loop body that only records
  each \<^verbatim>\<open>msgBuf\<close> it is given, in order.
\<close>

definition record_frame :: "byte list \<Rightarrow> byte list list \<Rightarrow> (byte list list) result" where
  "record_frame msgBuf frames = Inr (frames @ [msgBuf])"


subsection \<open>What the schema and protobufjs supply\<close>

text \<open>
  The numeric values of \<^verbatim>\<open>PayloadTypeEnum.values\<close> come from the \<^verbatim>\<open>.proto\<close> files, which
  are loaded at run time and are not part of the sources: the six values the switch
  compares with are a parameter.
\<close>

record payload_types =
  PROTO_OA_VERSION_RES :: nat
  PROTO_OA_APPLICATION_AUTH_RES :: nat
  PROTO_OA_ACCOUNT_AUTH_RES :: nat
  PROTO_OA_SYMBOLS_LIST_RES :: nat
  PROTO_OA_SPOT_EVENT :: nat
  PROTO_OA_ERROR_RES :: nat

text \<open>The decoded \<^verbatim>\<open>ProtoMessage\<close> envelope, and the decoded payloads the handlers read.\<close>

record wrap =
  payloadType :: nat
  payload :: "byte list"

record symbol =
  symbolId :: nat
  symbolName :: string

record spot_event =
  spotSymbolId :: nat
  spotSymbolName :: "string option"
  bid :: "nat option"
  ask :: "nat option"

record error_res =
  errorCode :: string
  description :: string

text \<open>
  The library functions the stream calls: the four protobufjs decoders (\<open>None\<close> when
  \<^verbatim>\<open>decode\<close> throws; \<^verbatim>\<open>SymbolsListRes_decode\<close> gives the \<^verbatim>\<open>symbol\<close> field of the decoded
  message) and the two string methods used on the operator's answer. They are a
  parameter of the model.
\<close>

record runtime =
  ProtoMessage_decode :: "byte list \<Rightarrow> wrap option"
  SymbolsListRes_decode :: "byte list \<Rightarrow> symbol list option"
  SpotEvent_decode :: "byte list \<Rightarrow> spot_event option"
  ErrorRes_decode :: "byte list \<Rightarrow> error_res option"
  toUpperCase :: "string \<Rightarrow> string"
  trim :: "string \<Rightarrow> string"

subsection \<open>Process variables and observable effects\<close>

text \<open>Lines 15 to 21: the five variables read from the environment (\<open>None\<close>: undefined).\<close>

record env =
  CTRADER_CLIENT_ID :: "string option"
  CTRADER_CLIENT_SECRET :: "string option"
  CTRADER_ACCESS_TOKEN :: "string option"
  CTRADER_REFRESH_TOKEN :: "string option"
  CTRADER_ACCOUNT_ID :: "string option"

datatype typeName = VersionReq | AppAuthReq | AccountAuthReq | SymbolsListReq | SubscribeSpotsReq

text \<open>
  The payload object given to \<^verbatim>\<open>send\<close>. The account id is kept as the environment
  string that \<^verbatim>\<open>parseInt\<close> is applied to.
\<close>

datatype fields =
    Version nat nat nat
  | ClientCredentials "string option" "string option"
  | AccountToken "string option" "string option"
  | Account "string option"
  | AccountSymbols "string option" "nat list"

datatype log =
    Connected
  | VersionComplete
  | AppAuthenticated
  | AccountAuthenticated
  | ReceivedSymbols nat
  | CsvWritten
  | NotFound string
  | SpotLine spot_event
  | ApiError string string
  | UnhandledPayload nat
  | SocketError string
  | ClosedReconnecting
  | TokenRefreshFailed nat string
  | TokenRefreshed

text \<open>
  What the process does to the outside, in order. \<open>Sent k n f\<close> is the two writes of
  \<^verbatim>\<open>send\<close> on socket \<open>k\<close> and its log line; sockets are numbered in the order of the
  \<^verbatim>\<open>tls.connect\<close> calls. \<open>Recv pt\<close> is not an effect but the observation that an
  envelope with payload type \<open>pt\<close> has been decoded (line 178).
\<close>

datatype effect =
    TlsConnect nat
  | Sent nat typeName fields
  | Recv nat
  | Log log
  | WriteSymbolsCsv "symbol list"
  | Question
  | SetTimeout nat
  | Fetch "string option" "string option" "string option"
  | WriteEnv string

text \<open>
  The variables of \<^verbatim>\<open>startTickStream\<close> that change: \<^verbatim>\<open>sock\<close> (0 is \<^verbatim>\<open>null\<close>),
  \<^verbatim>\<open>recvBuffer\<close>, the symbol lists of the \<^verbatim>\<open>symbols_list\<close> handlers that wait for the
  operator's answer, the number of reconnect timers that have not fired, and the
  effects so far.
\<close>

record state =
  sock :: nat
  recvBuffer :: "byte list"
  prompts :: "symbol list list"
  timers :: nat
  trace :: "effect list"

definition emit :: "effect list \<Rightarrow> state \<Rightarrow> state" where
  "emit es s = s\<lparr>trace := trace s @ es\<rparr>"

subsection \<open>The handlers (lines 105 to 158)\<close>

text \<open>
  \<^verbatim>\<open>send(socket, typeName, payload)\<close>, lines 105 to 115. Loading the schema, encoding a
  request, writing to the socket and writing the CSV file are taken to succeed; the
  exceptions of the stream that the model has are those of the four decoders.
\<close>

definition send :: "nat \<Rightarrow> typeName \<Rightarrow> fields \<Rightarrow> state \<Rightarrow> state" where
  "send socket n f s = emit [Sent socket n f] s"

definition on_version :: "env \<Rightarrow> state \<Rightarrow> state" where
  "on_version e s =
     (let s1 = emit [Log VersionComplete] s
      in send (sock s1) AppAuthReq
           (ClientCredentials (CTRADER_CLIENT_ID e) (CTRADER_CLIENT_SECRET e)) s1)"

definition on_auth_app :: "env \<Rightarrow> state \<Rightarrow> state" where
  "on_auth_app e s =
     (let s1 = emit [Log AppAuthenticated] s
      in send (sock s1) AccountAuthReq
           (AccountToken (CTRADER_ACCOUNT_ID e) (CTRADER_ACCESS_TOKEN e)) s1)"

definition on_auth_account :: "env \<Rightarrow> state \<Rightarrow> state" where
  "on_auth_account e s =
     (let s1 = emit [Log AccountAuthenticated] s
      in send (sock s1) SymbolsListReq (Account (CTRADER_ACCOUNT_ID e)) s1)"

text \<open>
  The \<^verbatim>\<open>symbols_list\<close> handler is \<^verbatim>\<open>async\<close>. Up to its \<^verbatim>\<open>await\<close> (lines 131 to
  145) it runs inside the frame loop: it logs, writes the CSV and asks the question.
  The rest (lines 146 to 148) runs when the operator answers: \<open>on_answer\<close>, for the
  \<open>k\<close>-th open question and the answer \<open>a\<close>. An answer to a question that is not
  open is no event of the program and changes nothing.
\<close>

definition on_symbols_list :: "symbol list \<Rightarrow> state \<Rightarrow> state" where
  "on_symbols_list all s =
     (let s1 = emit [Log (ReceivedSymbols (length all)), WriteSymbolsCsv all, Log CsvWritten,
                     Question] s
      in s1\<lparr>prompts := prompts s1 @ [all]\<rparr>)"

definition on_answer :: "runtime \<Rightarrow> env \<Rightarrow> nat \<Rightarrow> string \<Rightarrow> state \<Rightarrow> state" where
  "on_answer rt e k a s =
     (if k < length (prompts s) then
        (let all = prompts s ! k;
             s1 = s\<lparr>prompts := take k (prompts s) @ drop (Suc k) (prompts s)\<rparr>;
             sym = toUpperCase rt (trim rt a)
         in case find (\<lambda>x. toUpperCase rt (symbolName x) = sym) all of
              None \<Rightarrow> emit [Log (NotFound sym)] s1
            | Some m \<Rightarrow>
                send (sock s1) SubscribeSpotsReq
                  (AccountSymbols (CTRADER_ACCOUNT_ID e) [symbolId m]) s1)
      else s)"

text \<open>
  The \<^verbatim>\<open>spot\<close> handler prints one line built from the event; the line is kept as the
  event it is built from.
\<close>

definition on_spot :: "spot_event \<Rightarrow> state \<Rightarrow> state" where
  "on_spot spot s = emit [Log (SpotLine spot)] s"

definition on_error_res :: "error_res \<Rightarrow> state \<Rightarrow> state" where
  "on_error_res err s = emit [Log (ApiError (errorCode err) (description err))] s"

subsection \<open>Dispatch and socket events (lines 164 to 203)\<close>

text \<open>The \<^verbatim>\<open>switch\<close> of lines 180 to 195; the first matching \<^verbatim>\<open>case\<close> runs.\<close>

definition dispatch ::
  "runtime \<Rightarrow> payload_types \<Rightarrow> env \<Rightarrow> nat \<Rightarrow> byte list \<Rightarrow> state \<Rightarrow> state result"
where
  "dispatch rt p e pt pl s =
     (if pt = PROTO_OA_VERSION_RES p then Inr (on_version e s)
      else if pt = PROTO_OA_APPLICATION_AUTH_RES p then Inr (on_auth_app e s)
      else if pt = PROTO_OA_ACCOUNT_AUTH_RES p then Inr (on_auth_account e s)
      else if pt = PROTO_OA_SYMBOLS_LIST_RES p then
        (case SymbolsListRes_decode rt pl of
           None \<Rightarrow> Inl (DecodeError, s)
         | Some all \<Rightarrow> Inr (on_symbols_list all s))
      else if pt = PROTO_OA_SPOT_EVENT p then
        (case SpotEvent_decode rt pl of
           None \<Rightarrow> Inl (DecodeError, s)
         | Some spot \<Rightarrow> Inr (on_spot spot s))
      else if pt = PROTO_OA_ERROR_RES p then
        (case ErrorRes_decode rt pl of
           None \<Rightarrow> Inl (DecodeError, s)
         | Some err \<Rightarrow> Inr (on_error_res err s))
      else Inr (emit [Log (UnhandledPayload pt)] s))"

text \<open>Lines 177 to 195: the loop body after the two slices.\<close>

definition on_frame ::
  "runtime \<Rightarrow> payload_types \<Rightarrow> env \<Rightarrow> byte list \<Rightarrow> state \<Rightarrow> state result"
where
  "on_frame rt p e msgBuf s =
     (case ProtoMessage_decode rt msgBuf of
        None \<Rightarrow> Inl (DecodeError, s)
      | Some w \<Rightarrow> dispatch rt p e (payloadType w) (payload w) (emit [Recv (payloadType w)] s))"

text \<open>
  Lines 176 to 195, the loop body on the program state: the assignment of the cut
  buffer to \<^verbatim>\<open>recvBuffer\<close>, then decode and dispatch. The loop gives the body
  \<^verbatim>\<open>msgBuf\<close>, whose length is the declared length, so the cut is at
  \<open>4 + length msgBuf\<close>. When the decoder throws, the state at the throw holds the
  buffer already cut, as the code leaves it.
\<close>

definition loop_body ::
  "runtime \<Rightarrow> payload_types \<Rightarrow> env \<Rightarrow> byte list \<Rightarrow> state \<Rightarrow> state result"
where
  "loop_body rt p e msgBuf s =
     on_frame rt p e msgBuf (s\<lparr>recvBuffer := slice_from (4 + length msgBuf) (recvBuffer s)\<rparr>)"

text \<open>
  The \<^verbatim>\<open>data\<close> handler: line 171 assigns the concatenated buffer, then the loop runs.
  The field \<^verbatim>\<open>recvBuffer\<close> of the state follows the loop's buffer: it holds the
  concatenation when the loop starts, each iteration cuts it, and the buffer the loop
  leaves is the one it holds at the end.
\<close>

definition on_data ::
  "runtime \<Rightarrow> payload_types \<Rightarrow> env \<Rightarrow> byte list \<Rightarrow> state \<Rightarrow> state result"
where
  "on_data rt p e chunk s =
     (case on_chunk (loop_body rt p e) chunk
             (recvBuffer s, s\<lparr>recvBuffer := recvBuffer s @ chunk\<rparr>) of
        Inl x \<Rightarrow> Inl x
      | Inr (buf, s') \<Rightarrow> Inr (s'\<lparr>recvBuffer := buf\<rparr>))"

text \<open>
  \<^verbatim>\<open>connect\<close>, lines 164 to 201: a new socket is created and assigned to \<^verbatim>\<open>sock\<close>, and
  the handlers are attached to it. Nothing else is assigned.
\<close>

definition connect :: "state \<Rightarrow> state" where
  "connect s = emit [TlsConnect (Suc (sock s))] (s\<lparr>sock := Suc (sock s)\<rparr>)"

text \<open>Lines 161 to 163 and 203: the variables as declared, then the first \<^verbatim>\<open>connect()\<close>.\<close>

definition startTickStream :: state where
  "startTickStream =
     connect \<lparr>sock = 0, recvBuffer = [], prompts = [], timers = 0, trace = []\<rparr>"

text \<open>
  What can happen to the running stream: the TLS connect callback, a chunk of data, a
  socket error, the close of the socket, a reconnect timer firing, and the operator
  answering the \<open>k\<close>-th open question. The callbacks use the variable \<^verbatim>\<open>sock\<close>, not
  the socket they are attached to, so the events carry no socket. A timer that was
  never set cannot fire: \<open>Timer\<close> with no timer pending changes nothing.
\<close>

datatype event =
    ConnectCallback
  | Data "byte list"
  | SockError string
  | Close
  | Timer
  | Answer nat string

definition step ::
  "runtime \<Rightarrow> payload_types \<Rightarrow> env \<Rightarrow> event \<Rightarrow> state \<Rightarrow> state result"
where
  "step rt p e ev s =
     (case ev of
        ConnectCallback \<Rightarrow>
          Inr (send (sock s) VersionReq (Version 2 0 0) (emit [Log Connected] s))
      | Data chunk \<Rightarrow> on_data rt p e chunk s
      | SockError msg \<Rightarrow> Inr (emit [Log (SocketError msg)] s)
      | Close \<Rightarrow>
          Inr ((emit [Log ClosedReconnecting, SetTimeout 5000] s)\<lparr>timers := Suc (timers s)\<rparr>)
      | Timer \<Rightarrow>
          (if timers s = 0 then Inr s else Inr (connect (s\<lparr>timers := timers s - 1\<rparr>)))
      | Answer k a \<Rightarrow> Inr (on_answer rt e k a s))"

fun run ::
  "runtime \<Rightarrow> payload_types \<Rightarrow> env \<Rightarrow> event list \<Rightarrow> state \<Rightarrow> state result"
where
  "run rt p e [] s = Inr s"
| "run rt p e (ev # evs) s =
     (case step rt p e ev s of
        Inl x \<Rightarrow> Inl x
      | Inr s' \<Rightarrow> run rt p e evs s')"

text \<open>The state a run ends in, whether it returned or stopped at an exception.\<close>

definition final :: "state result \<Rightarrow> state" where
  "final r = (case r of Inl (x, s) \<Rightarrow> s | Inr s \<Rightarrow> s)"


subsection \<open>refreshAccessToken (lines 28 to 58)\<close>

text \<open>The JSON body of the token endpoint's answer, as far as the function reads it.\<close>

record token_data =
  access_token :: "string option"
  refresh_token :: "string option"

text \<open>
  One answer to \<^verbatim>\<open>fetch\<close>: the promise rejects (\<open>Unreachable\<close>), or there is a response
  with \<^verbatim>\<open>res.ok\<close>, \<^verbatim>\<open>res.status\<close>, \<^verbatim>\<open>res.text()\<close> and \<^verbatim>\<open>res.json()\<close> (\<open>None\<close> when
  the body is not JSON and \<^verbatim>\<open>json()\<close> rejects).
\<close>

datatype http = Unreachable | Response bool nat string "token_data option"

text \<open>
  What the function finds outside the process: the answers the endpoint would give to
  successive requests, the text of the \<^verbatim>\<open>.env\<close> file (\<open>None\<close>: \<^verbatim>\<open>readFileSync\<close>
  throws), and whether \<^verbatim>\<open>writeFileSync\<close> succeeds.
\<close>

record world =
  responses :: "http list"
  env_file :: "string option"
  writable :: bool

datatype ending = Returned | Exited nat | Uncaught

record refreshed =
  ending :: ending
  vars :: env
  world_after :: world
  effects :: "effect list"

text \<open>JavaScript truthiness of a string or \<^verbatim>\<open>undefined\<close>.\<close>

definition truthy :: "string option \<Rightarrow> bool" where
  "truthy v = (case v of None \<Rightarrow> False | Some x \<Rightarrow> x \<noteq> [])"

definition startsWith :: "string \<Rightarrow> string \<Rightarrow> bool" where
  "startsWith l k = (take (length k) l = k)"

text \<open>\<^verbatim>\<open>text.split('\n')\<close>: never empty, a trailing newline gives a last empty line.\<close>

fun split_newline :: "string \<Rightarrow> string list" where
  "split_newline [] = [[]]"
| "split_newline (c # cs) =
     (if c = CHR 0x0A then [] # split_newline cs
      else (case split_newline cs of
              [] \<Rightarrow> [[c]]
            | l # ls \<Rightarrow> (c # l) # ls))"

text \<open>\<^verbatim>\<open>array.join('\n')\<close>: an \<^verbatim>\<open>undefined\<close> element is rendered as the empty string.\<close>

fun join_newline :: "string option list \<Rightarrow> string" where
  "join_newline [] = []"
| "join_newline [x] = (case x of None \<Rightarrow> [] | Some l \<Rightarrow> l)"
| "join_newline (x # y # ys) =
     (case x of None \<Rightarrow> [] | Some l \<Rightarrow> l) @ [CHR 0x0A] @ join_newline (y # ys)"

text \<open>Line 48: the new line for key \<open>k\<close>, or the old line of the file when \<open>v\<close> is falsy.\<close>

definition update :: "string list \<Rightarrow> string \<Rightarrow> string option \<Rightarrow> string option" where
  "update lines k v =
     (case v of
        None \<Rightarrow> find (\<lambda>l. startsWith l k) lines
      | Some x \<Rightarrow> if truthy v then Some (k @ ''='' @ x) else find (\<lambda>l. startsWith l k) lines)"

text \<open>
  The function makes one request. A rejected \<^verbatim>\<open>fetch\<close> or \<^verbatim>\<open>json()\<close>, an unreadable
  file and a failed write are exceptions that nothing catches (the call is a top-level
  \<^verbatim>\<open>await\<close>). After a failed write the model does not say what the file holds
  (\<open>None\<close>).
\<close>

definition refreshAccessToken :: "env \<Rightarrow> world \<Rightarrow> refreshed" where
  "refreshAccessToken e w =
     (let request = [Fetch (CTRADER_CLIENT_ID e) (CTRADER_CLIENT_SECRET e) (CTRADER_REFRESH_TOKEN e)]
      in case responses w of
           [] \<Rightarrow> \<lparr>ending = Uncaught, vars = e, world_after = w, effects = request\<rparr>
         | res # rest \<Rightarrow>
             (let w1 = w\<lparr>responses := rest\<rparr>
              in case res of
                   Unreachable \<Rightarrow>
                     \<lparr>ending = Uncaught, vars = e, world_after = w1, effects = request\<rparr>
                 | Response ok status text json \<Rightarrow>
                     if \<not> ok then
                       \<lparr>ending = Exited 1, vars = e, world_after = w1,
                        effects = request @ [Log (TokenRefreshFailed status text)]\<rparr>
                     else
                       (case json of
                          None \<Rightarrow>
                            \<lparr>ending = Uncaught, vars = e, world_after = w1, effects = request\<rparr>
                        | Some data \<Rightarrow>
                            (case env_file w1 of
                               None \<Rightarrow>
                                 \<lparr>ending = Uncaught, vars = e, world_after = w1,
                                  effects = request @ [Log TokenRefreshed]\<rparr>
                             | Some content \<Rightarrow>
                                 (let lines = split_newline content;
                                      newEnv = join_newline
                                        [update lines ''CTRADER_CLIENT_ID'' (CTRADER_CLIENT_ID e),
                                         update lines ''CTRADER_CLIENT_SECRET'' (CTRADER_CLIENT_SECRET e),
                                         update lines ''CTRADER_ACCESS_TOKEN'' (access_token data),
                                         update lines ''CTRADER_REFRESH_TOKEN'' (refresh_token data),
                                         update lines ''CTRADER_ACCOUNT_ID'' (CTRADER_ACCOUNT_ID e)]
                                  in if \<not> writable w1 then
                                       \<lparr>ending = Uncaught, vars = e,
                                        world_after = w1\<lparr>env_file := None\<rparr>,
                                        effects = request @ [Log TokenRefreshed]\<rparr>
                                     else
                                       \<lparr>ending = Returned,
                                        vars = e\<lparr>CTRADER_ACCESS_TOKEN := access_token data\<rparr>,
                                        world_after = w1\<lparr>env_file := Some newEnv\<rparr>,
                                        effects = request @ [Log TokenRefreshed, WriteEnv newEnv]\<rparr>)))))"


subsection \<open>Notions used to state the properties\<close>




text \<open>
  \<open>settled rt p e evs s\<close>: in the run of \<open>evs\<close> from \<open>s\<close>, no question to the operator is
  open at a moment when a reconnect timer fires and a new connection starts.
\<close>

fun settled :: "runtime \<Rightarrow> payload_types \<Rightarrow> env \<Rightarrow> event list \<Rightarrow> state \<Rightarrow> bool" where
  "settled rt p e [] s = True"
| "settled rt p e (ev # evs) s =
     ((ev = Timer \<and> timers s \<noteq> 0 \<longrightarrow> prompts s = [])
      \<and> (case step rt p e ev s of
            Inl x \<Rightarrow> True
          | Inr s' \<Rightarrow> settled rt p e evs s'))"

text \<open>The effects a step has added to the trace of the state it started from.\<close>

definition emitted :: "state \<Rightarrow> state result \<Rightarrow> effect list" where
  "emitted s r = drop (length (trace s)) (trace (final r))"

subsection \<open>An instance of the parameters\<close>

text \<open>
  To run the model on concrete bytes the parameters need values. The payload types
  are six distinct numbers. The envelope decoder of the instance reads a two-byte
  big-endian payload type and takes the rest as payload; the payload decoders return
  fixed messages. This is not the wire encoding of protobuf: the bytes of the examples
  are frames for the decoder of the instance, not frames a cTrader server sends. The
  instance is used in the examples only; every general theorem holds for all
  parameters, the decoders of protobufjs among them.
\<close>

definition example_types :: payload_types where
  "example_types =
     \<lparr>PROTO_OA_VERSION_RES = 2105, PROTO_OA_APPLICATION_AUTH_RES = 2101,
      PROTO_OA_ACCOUNT_AUTH_RES = 2103, PROTO_OA_SYMBOLS_LIST_RES = 2115,
      PROTO_OA_SPOT_EVENT = 2131, PROTO_OA_ERROR_RES = 2142\<rparr>"

definition example_runtime :: runtime where
  "example_runtime =
     \<lparr>ProtoMessage_decode =
        (\<lambda>b. case b of
                hi # lo # pl \<Rightarrow> Some \<lparr>payloadType = unat hi * 256 + unat lo, payload = pl\<rparr>
              | _ \<Rightarrow> None),
      SymbolsListRes_decode = (\<lambda>pl. Some [\<lparr>symbolId = 1, symbolName = ''EURUSD''\<rparr>]),
      SpotEvent_decode =
        (\<lambda>pl. Some \<lparr>spotSymbolId = 1, spotSymbolName = None,
                     bid = Some 108500, ask = Some 108510\<rparr>),
      ErrorRes_decode =
        (\<lambda>pl. Some \<lparr>errorCode = ''CH_ACCESS_TOKEN_INVALID'', description = ''expired''\<rparr>),
      toUpperCase = (\<lambda>x. x),
      trim = (\<lambda>x. x)\<rparr>"

definition example_env :: env where
  "example_env =
     \<lparr>CTRADER_CLIENT_ID = Some ''id'', CTRADER_CLIENT_SECRET = Some ''secret'',
      CTRADER_ACCESS_TOKEN = Some ''A1'', CTRADER_REFRESH_TOKEN = Some ''R1'',
      CTRADER_ACCOUNT_ID = Some ''42''\<rparr>"



section \<open>Properties\<close>

subsection \<open>Length prefix and frame loop\<close>

lemma readUInt32BE_append:
  "length buf \<ge> 4 \<Longrightarrow> readUInt32BE (buf @ ys) = readUInt32BE buf"
  by (cases buf rule: readUInt32BE.cases) auto

lemma readUInt32BE_Some: "length buf \<ge> 4 \<Longrightarrow> \<exists>n. readUInt32BE buf = Some n"
  by (cases buf rule: readUInt32BE.cases) auto

lemma readUInt32BE_bound: "readUInt32BE buf = Some n \<Longrightarrow> n < 2 ^ 32"
proof (cases buf rule: readUInt32BE.cases)
  case (1 b0 b1 b2 b3 rest)
  assume h: "readUInt32BE buf = Some n"
  have "unat b0 < 256" "unat b1 < 256" "unat b2 < 256" "unat b3 < 256"
    using unsigned_less [of b0] unsigned_less [of b1] unsigned_less [of b2] unsigned_less [of b3]
    by simp_all
  with h 1 show ?thesis by auto
qed auto

lemma data_loop_append:
  "data_loop h (buf @ ys) s =
     (case data_loop h buf s of
        Inl e \<Rightarrow> Inl e
      | Inr (buf', s') \<Rightarrow> data_loop h (buf' @ ys) s')"
proof (induction h buf s rule: data_loop.induct)
  case (1 h recvBuffer s)
  show ?case
  proof (cases "length recvBuffer \<ge> 4")
    case False
    then show ?thesis by (simp add: data_loop.simps [of h recvBuffer])
  next
    case True
    then obtain len where len: "readUInt32BE recvBuffer = Some len"
      using readUInt32BE_Some by blast
    show ?thesis
    proof (cases "length recvBuffer < 4 + len")
      case True
      with len \<open>length recvBuffer \<ge> 4\<close> show ?thesis
        by (simp add: data_loop.simps [of h recvBuffer])
    next
      case False
      note complete = False
      have l2: "readUInt32BE (recvBuffer @ ys) = Some len"
        using True len by (simp add: readUInt32BE_append)
      have sl: "slice_range 4 (4 + len) (recvBuffer @ ys) = slice_range 4 (4 + len) recvBuffer"
        using complete by (simp add: slice_range_def)
      have sf: "slice_from (4 + len) (recvBuffer @ ys) = slice_from (4 + len) recvBuffer @ ys"
        using complete by (simp add: slice_from_def)
      show ?thesis
      proof (cases "h (slice_range 4 (4 + len) recvBuffer) s")
        case (Inl e)
        with True complete len l2 sl show ?thesis
          by (simp add: data_loop.simps [of h recvBuffer] data_loop.simps [of h "recvBuffer @ ys"])
      next
        case (Inr s')
        have ih: "data_loop h (slice_from (4 + len) recvBuffer @ ys) s' =
            (case data_loop h (slice_from (4 + len) recvBuffer) s' of
               Inl e \<Rightarrow> Inl e | Inr (buf', s'') \<Rightarrow> data_loop h (buf' @ ys) s'')"
          using "1.IH" [OF True len complete Inr] .
        from True complete len l2 sl sf Inr ih show ?thesis
          by (simp add: data_loop.simps [of h recvBuffer] data_loop.simps [of h "recvBuffer @ ys"])
      qed
    qed
  qed
qed

lemma be32_digits:
  fixes n :: nat
  shows "n div 2 ^ 24 * 2 ^ 24 + n div 2 ^ 16 mod 256 * 2 ^ 16
           + n div 2 ^ 8 mod 256 * 2 ^ 8 + n mod 256 = n"
proof -
  define d1 where "d1 = n div 256"
  define d2 where "d2 = d1 div 256"
  define d3 where "d3 = d2 div 256"
  have e1: "n div 2 ^ 8 = d1" by (simp add: d1_def)
  have e2: "n div 2 ^ 16 = d2"
    using div_mult2_eq [of n 256 256] by (simp add: d1_def d2_def)
  have e3: "n div 2 ^ 24 = d3"
    using div_mult2_eq [of n 65536 256] e2 by (simp add: d3_def)
  have s0: "n = d1 * 256 + n mod 256" by (simp add: d1_def)
  have s1: "d1 = d2 * 256 + d1 mod 256" by (simp add: d2_def)
  have s2: "d2 = d3 * 256 + d2 mod 256" by (simp add: d3_def)
  show ?thesis
    unfolding e1 e2 e3 using s0 s1 s2 by simp
qed

lemma be32_top:
  fixes n :: nat
  assumes "n < 2 ^ 32"
  shows "n div 2 ^ 24 mod 256 = n div 2 ^ 24"
proof -
  have "n < 256 * 2 ^ 24" using assms by simp
  then have "n div 2 ^ 24 < 256" by (rule less_mult_imp_div_less)
  then show ?thesis by simp
qed

lemma read_write:
  assumes "writeUInt32BE n = Some header"
  shows "readUInt32BE (header @ rest) = Some n"
proof -
  from assms have n: "n < 2 ^ 32" and hd: "header = [of_nat (n div 2 ^ 24), of_nat (n div 2 ^ 16), of_nat (n div 2 ^ 8), of_nat n]"
    by (auto simp: writeUInt32BE_def split: if_splits)
  have "unat (of_nat (n div 2 ^ 24) :: byte) = n div 2 ^ 24"
    using be32_top [OF n] by (simp add: unat_of_nat)
  then show ?thesis using be32_digits [of n] by (simp add: hd unat_of_nat)
qed

lemma data_loop_exit:
  "data_loop h buf s = Inr (buf', s') \<Longrightarrow>
     length buf' < 4 \<or> (\<exists>len. readUInt32BE buf' = Some len \<and> length buf' < 4 + len)"
proof (induction h buf s rule: data_loop.induct)
  case (1 h recvBuffer s)
  show ?case
  proof (cases "length recvBuffer \<ge> 4")
    case False
    with "1.prems" show ?thesis by (simp add: data_loop.simps [of h recvBuffer])
  next
    case True
    show ?thesis
    proof (cases "readUInt32BE recvBuffer")
      case None
      with True "1.prems" show ?thesis by (simp add: data_loop.simps [of h recvBuffer])
    next
      case (Some len)
      show ?thesis
      proof (cases "length recvBuffer < 4 + len")
        case True
        with Some \<open>length recvBuffer \<ge> 4\<close> "1.prems" show ?thesis
          by (auto simp add: data_loop.simps [of h recvBuffer])
      next
        case False
        show ?thesis
        proof (cases "h (slice_range 4 (4 + len) recvBuffer) s")
          case (Inl e)
          with True Some False "1.prems" show ?thesis
            by (simp add: data_loop.simps [of h recvBuffer])
        next
          case (Inr s1)
          with True Some False "1.prems"
          have "data_loop h (slice_from (4 + len) recvBuffer) s1 = Inr (buf', s')"
            by (simp add: data_loop.simps [of h recvBuffer])
          then show ?thesis by (rule "1.IH" [OF True Some False Inr])
        qed
      qed
    qed
  qed
qed

lemma data_loop_stuck:
  "length buf < 4 \<or> (\<exists>len. readUInt32BE buf = Some len \<and> length buf < 4 + len) \<Longrightarrow>
     data_loop h buf s = Inr (buf, s)"
  by (subst data_loop.simps) auto

lemma on_chunks_concat:
  "data_loop h buf s = Inr (buf, s) \<Longrightarrow>
     on_chunks h chunks (buf, s) = data_loop h (buf @ concat chunks) s"
proof (induction chunks arbitrary: buf s)
  case Nil
  then show ?case by simp
next
  case (Cons c cs)
  show ?case
  proof (cases "data_loop h (buf @ c) s")
    case (Inl e)
    then show ?thesis
      using data_loop_append [of h "buf @ c" "concat cs" s] by (simp add: on_chunk_def)
  next
    case (Inr r)
    obtain buf' s' where r: "r = (buf', s')" by (cases r)
    have "data_loop h (buf @ c) s = Inr (buf', s')"
      using Inr r by simp
    then have "length buf' < 4 \<or> (\<exists>len. readUInt32BE buf' = Some len \<and> length buf' < 4 + len)"
      by (rule data_loop_exit)
    then have "data_loop h buf' s' = Inr (buf', s')"
      by (rule data_loop_stuck)
    then have "on_chunks h cs (buf', s') = data_loop h (buf' @ concat cs) s'"
      by (rule Cons.IH)
    with Inr r show ?thesis
      using data_loop_append [of h "buf @ c" "concat cs" s] by (simp add: on_chunk_def)
  qed
qed

lemma write_length: "writeUInt32BE n = Some header \<Longrightarrow> length header = 4"
  by (auto simp: writeUInt32BE_def split: if_splits)

lemma data_loop_wire:
  assumes "wire body = Some w"
  shows "data_loop h (w @ rest) s =
     (case h body s of Inl e \<Rightarrow> Inl e | Inr s' \<Rightarrow> data_loop h rest s')"
proof -
  from assms obtain header where hd: "writeUInt32BE (length body) = Some header"
    and w: "w = header @ body"
    by (auto simp: wire_def split: option.splits)
  have l: "length header = 4" using hd by (rule write_length)
  have r: "readUInt32BE (w @ rest) = Some (length body)"
    using read_write [OF hd, of "body @ rest"] by (simp add: w)
  have len: "\<not> length (w @ rest) < 4 + length body" "length (w @ rest) \<ge> 4"
    by (simp_all add: w l)
  have f: "slice_range 4 (4 + length body) (w @ rest) = body"
    by (simp add: w l slice_range_def)
  have b: "slice_from (4 + length body) (w @ rest) = rest"
    by (simp add: w l slice_from_def)
  show ?thesis
    by (subst data_loop.simps) (simp only: r len f b if_True if_False option.case)
qed


lemma record_frame_loop:
  "\<exists>r new. data_loop record_frame buf fs = Inr (r, fs @ new)
      \<and> length r + sum_list (map (\<lambda>f. 4 + length f) new) = length buf"
proof (induction "length buf" arbitrary: buf fs rule: less_induct)
  case less
  show ?case
  proof (cases "length buf \<ge> 4")
    case False
    then show ?thesis by (simp add: data_loop.simps [of _ buf])
  next
    case True
    then obtain len where len: "readUInt32BE buf = Some len"
      using readUInt32BE_Some by blast
    show ?thesis
    proof (cases "length buf < 4 + len")
      case True
      with len \<open>length buf \<ge> 4\<close> show ?thesis by (simp add: data_loop.simps [of _ buf])
    next
      case False
      let ?f = "slice_range 4 (4 + len) buf"
      let ?b = "slice_from (4 + len) buf"
      have lf: "length ?f = len" using False by (simp add: slice_range_def)
      have lb: "length ?b + (4 + len) = length buf" using False by (simp add: slice_from_def)
      then have "length ?b < length buf" by simp
      from less [OF this, of "fs @ [?f]"] obtain r new where
        r: "data_loop record_frame ?b (fs @ [?f]) = Inr (r, (fs @ [?f]) @ new)"
        and n: "length r + sum_list (map (\<lambda>f. 4 + length f) new) = length ?b"
        by blast
      have "data_loop record_frame buf fs = Inr (r, fs @ (?f # new))"
        using True len False r by (simp add: data_loop.simps [of _ buf] record_frame_def)
      moreover have "length r + sum_list (map (\<lambda>f. 4 + length f) (?f # new)) = length buf"
        using n lf lb by simp
      ultimately show ?thesis by blast
    qed
  qed
qed

lemma sum_frames_bound:
  "4 * length (fs :: byte list list) \<le> sum_list (map (\<lambda>f. 4 + length f) fs)"
  by (induction fs) auto

lemma data_loop_invariant:
  assumes h: "\<And>m s. P s \<Longrightarrow> P (final (h m s))"
  shows "P s \<Longrightarrow> P (final (case data_loop h buf s of Inl x \<Rightarrow> Inl x | Inr (b, s') \<Rightarrow> Inr s'))"
proof (induction "length buf" arbitrary: buf s rule: less_induct)
  case less
  show ?case
  proof (cases "length buf \<ge> 4")
    case False
    with less.prems show ?thesis by (simp add: data_loop.simps [of h buf] final_def)
  next
    case True
    then obtain len where len: "readUInt32BE buf = Some len"
      using readUInt32BE_Some by blast
    show ?thesis
    proof (cases "length buf < 4 + len")
      case True
      with len \<open>length buf \<ge> 4\<close> less.prems show ?thesis
        by (simp add: data_loop.simps [of h buf] final_def)
    next
      case False
      let ?f = "slice_range 4 (4 + len) buf"
      let ?b = "slice_from (4 + len) buf"
      have shorter: "length ?b < length buf"
        using True False by (simp add: slice_from_def)
      have step: "P (final (h ?f s))" using less.prems by (rule h)
      show ?thesis
      proof (cases "h ?f s")
        case (Inl x)
        with step True len False show ?thesis
          by (simp add: data_loop.simps [of h buf])
      next
        case (Inr s')
        with step have "P s'" by (simp add: final_def)
        then have "P (final (case data_loop h ?b s' of Inl x \<Rightarrow> Inl x | Inr (b, s'') \<Rightarrow> Inr s''))"
          by (rule less.hyps [OF shorter])
        with Inr True len False show ?thesis
          by (simp add: data_loop.simps [of h buf])
      qed
    qed
  qed
qed



lemmas stream_eval =
  step_def on_data_def loop_body_def on_chunk_def data_loop.simps on_frame_def dispatch_def
  example_runtime_def example_types_def example_env_def startTickStream_def connect_def
  emit_def send_def on_version_def on_auth_app_def on_auth_account_def on_symbols_list_def
  on_spot_def on_error_res_def on_answer_def slice_range_def slice_from_def final_def

text \<open>
  A sanity check of the state at an exception: the instance cannot decode a one-byte
  envelope, and the state at the throw holds the buffer after the cut.
\<close>

lemma decode_error_state:
  "run example_runtime example_types example_env [Data [0, 0, 0, 1, 7, 9]] startTickStream
   = Inl (DecodeError,
          \<lparr>sock = 1, recvBuffer = [9], prompts = [], timers = 0, trace = [TlsConnect 1]\<rparr>)"
  by (simp add: stream_eval)

lemma run_invariant:
  assumes frame: "\<And>m s. P s \<Longrightarrow> P (final (on_frame rt p e m s))"
    and other: "\<And>ev s. P s \<Longrightarrow> (\<forall>c. ev \<noteq> Data c) \<Longrightarrow> P (final (step rt p e ev s))"
    and buf: "\<And>s b. P s \<Longrightarrow> P (s\<lparr>recvBuffer := b\<rparr>)"
  shows "P s \<Longrightarrow> P (final (run rt p e evs s))"
proof (induction evs arbitrary: s)
  case Nil
  then show ?case by (simp add: final_def)
next
  case (Cons ev evs)
  have st: "P (final (step rt p e ev s))"
  proof (cases "\<exists>c. ev = Data c")
    case False
    with Cons.prems show ?thesis by (intro other) auto
  next
    case True
    then obtain c where c: "ev = Data c" by blast
    have "P (final (case data_loop (loop_body rt p e) (recvBuffer s @ c)
                            (s\<lparr>recvBuffer := recvBuffer s @ c\<rparr>) of
          Inl x \<Rightarrow> Inl x | Inr (b, s') \<Rightarrow> Inr s'))"
    proof (rule data_loop_invariant [where P = P and h = "loop_body rt p e"])
      fix m :: "byte list" and t
      assume "P t"
      then have "P (t\<lparr>recvBuffer := slice_from (4 + length m) (recvBuffer t)\<rparr>)" by (rule buf)
      then show "P (final (loop_body rt p e m t))" unfolding loop_body_def by (rule frame)
    next
      show "P (s\<lparr>recvBuffer := recvBuffer s @ c\<rparr>)" using Cons.prems by (rule buf)
    qed
    then show ?thesis
      by (auto simp: c step_def on_data_def on_chunk_def final_def buf
            split: sum.splits prod.splits)
  qed
  show ?case
  proof (cases "step rt p e ev s")
    case (Inl x)
    with st show ?thesis by simp
  next
    case (Inr s')
    with st have "P s'" by (simp add: final_def)
    then have "P (final (run rt p e evs s'))" by (rule Cons.IH)
    with Inr show ?thesis by simp
  qed
qed

text \<open>
  C1. Feeding chunks one at a time into the frame loop gives the same frame bodies, in
  the same order, and the same remainder as one run of the loop on the concatenation
  of the chunks. This holds for the recorded \<^verbatim>\<open>msgBuf\<close> values and for every loop
  body. In particular two frames of 37 bytes in all, delivered as chunks of 10, 5 and
  22 bytes, give exactly the two bodies.
\<close>

theorem chunk_boundary_independence:
  "on_chunks record_frame chunks ([], []) = data_loop record_frame (concat chunks) []
   \<and> on_chunks h chunks ([], s) = data_loop h (concat chunks) s
   \<and> (\<forall>b1 b2 w1 w2.
        wire b1 = Some w1 \<and> wire b2 = Some w2 \<and> length (w1 @ w2) = 37 \<longrightarrow>
          on_chunks record_frame
            [take 10 (w1 @ w2), take 5 (drop 10 (w1 @ w2)), drop 15 (w1 @ w2)] ([], [])
          = Inr ([], [b1, b2]))"
proof (intro conjI allI impI)
  have stuck: "\<And>(g :: byte list \<Rightarrow> 'b \<Rightarrow> 'b result) t. data_loop g [] t = Inr ([], t)"
    by (simp add: data_loop_stuck)
  show "on_chunks record_frame chunks ([], []) = data_loop record_frame (concat chunks) []"
    using on_chunks_concat [OF stuck, of record_frame chunks "[]"] by simp
  show "on_chunks h chunks ([], s) = data_loop h (concat chunks) s"
    using on_chunks_concat [OF stuck, of h chunks s] by simp
next
  fix b1 b2 w1 w2 :: "byte list"
  assume a: "wire b1 = Some w1 \<and> wire b2 = Some w2 \<and> length (w1 @ w2) = 37"
  let ?w = "w1 @ w2"
  have stuck: "data_loop record_frame [] [] = Inr ([], [])"
    by (simp add: data_loop_stuck)
  have "take 5 (drop 10 ?w) @ drop 5 (drop 10 ?w) = drop 10 ?w"
    by (rule append_take_drop_id)
  moreover have "take 10 ?w @ drop 10 ?w = ?w"
    by (rule append_take_drop_id)
  moreover have "drop 5 (drop 10 ?w) = drop 15 ?w"
    by (simp del: drop_append)
  ultimately have "take 10 ?w @ take 5 (drop 10 ?w) @ drop 15 ?w = ?w"
    by (simp only:)
  then have cat: "concat [take 10 ?w, take 5 (drop 10 ?w), drop 15 ?w] = w1 @ w2 @ []"
    by (simp only: concat.simps append_Nil2 append_assoc)
  from a have w1: "wire b1 = Some w1" and w2: "wire b2 = Some w2"
    by simp_all
  have "data_loop record_frame (w1 @ w2 @ []) [] = data_loop record_frame (w2 @ []) [b1]"
    by (simp only: data_loop_wire [OF w1] record_frame_def sum.case append_Nil)
  also have "\<dots> = data_loop record_frame [] [b1, b2]"
    by (simp only: data_loop_wire [OF w2] record_frame_def sum.case append.simps)
  also have "\<dots> = Inr ([], [b1, b2])"
    by (simp add: data_loop_stuck)
  finally have "data_loop record_frame (w1 @ w2 @ []) [] = Inr ([], [b1, b2])" .
  then show "on_chunks record_frame [take 10 ?w, take 5 (drop 10 ?w), drop 15 ?w] ([], [])
      = Inr ([], [b1, b2])"
    using on_chunks_concat [OF stuck, of "[take 10 ?w, take 5 (drop 10 ?w), drop 15 ?w]"]
    by (simp only: cat append_Nil)
qed

theorem chunk_boundary_independence_witness:
  "wire [1, 2, 3, 4, 5, 6, 7, 8, 9, 10] = Some [0, 0, 0, 10, 1, 2, 3, 4, 5, 6, 7, 8, 9, 10]
   \<and> wire [21, 22, 23, 24, 25, 26, 27, 28, 29, 30, 31, 32, 33, 34, 35, 36, 37, 38, 39]
       = Some [0, 0, 0, 19, 21, 22, 23, 24, 25, 26, 27, 28, 29, 30, 31, 32, 33, 34, 35, 36, 37, 38, 39]
   \<and> length ([0, 0, 0, 10, 1, 2, 3, 4, 5, 6, 7, 8, 9, 10 :: byte]
         @ [0, 0, 0, 19, 21, 22, 23, 24, 25, 26, 27, 28, 29, 30, 31, 32, 33, 34, 35, 36, 37, 38, 39])
       = 37
   \<and> on_chunks record_frame
        [[0, 0, 0, 10, 1, 2, 3, 4, 5, 6],
         [7, 8, 9, 10, 0],
         [0, 0, 19, 21, 22, 23, 24, 25, 26, 27, 28, 29, 30, 31, 32, 33, 34, 35, 36, 37, 38, 39]]
        ([], [])
      = Inr ([], [[1, 2, 3, 4, 5, 6, 7, 8, 9, 10],
                  [21, 22, 23, 24, 25, 26, 27, 28, 29, 30, 31, 32, 33, 34, 35, 36, 37, 38, 39]])"
proof -
  have w1: "wire [1, 2, 3, 4, 5, 6, 7, 8, 9, 10] = Some [0, 0, 0, 10, 1, 2, 3, 4, 5, 6, 7, 8, 9, 10]"
    by (simp add: wire_def writeUInt32BE_def)
  have w2: "wire [21, 22, 23, 24, 25, 26, 27, 28, 29, 30, 31, 32, 33, 34, 35, 36, 37, 38, 39]
       = Some [0, 0, 0, 19, 21, 22, 23, 24, 25, 26, 27, 28, 29, 30, 31, 32, 33, 34, 35, 36, 37, 38, 39]"
    by (simp add: wire_def writeUInt32BE_def)
  from chunk_boundary_independence [of "[]" record_frame "[]"]
  have "\<forall>b1 b2 w1 w2.
        wire b1 = Some w1 \<and> wire b2 = Some w2 \<and> length (w1 @ w2) = 37 \<longrightarrow>
          on_chunks record_frame
            [take 10 (w1 @ w2), take 5 (drop 10 (w1 @ w2)), drop 15 (w1 @ w2)] ([], [])
          = Inr ([], [b1, b2])"
    by (elim conjE)
  from this [rule_format, OF conjI [OF w1 conjI [OF w2]]] w1 w2
  show ?thesis by simp
qed

text \<open>
  C10. The frame loop terminates on every buffer: it returns the frames and a
  remainder, the bytes of the buffer are the remainder plus \<open>4 + length\<close> for every
  frame, so at most a quarter of the buffer length frames are taken. The remainder
  holds no complete frame: it is shorter than 4 bytes or shorter than its declared
  length asks for. One iteration on a complete frame takes exactly \<open>4 + len\<close> bytes
  from the front, which makes the buffer strictly shorter.
\<close>

theorem frame_loop_terminates:
  "(\<exists>frames r. data_loop record_frame buf [] = Inr (r, frames)
      \<and> length r + sum_list (map (\<lambda>f. 4 + length f) frames) = length buf
      \<and> 4 * length frames \<le> length buf
      \<and> (length r < 4 \<or> (\<exists>len. readUInt32BE r = Some len \<and> length r < 4 + len)))
   \<and> (\<forall>len. length buf \<ge> 4 \<and> readUInt32BE buf = Some len \<and> \<not> length buf < 4 + len \<longrightarrow>
         data_loop h buf s =
           (case h (slice_range 4 (4 + len) buf) s of
              Inl e \<Rightarrow> Inl e
            | Inr s' \<Rightarrow> data_loop h (slice_from (4 + len) buf) s')
         \<and> length (slice_range 4 (4 + len) buf) = len
         \<and> length (slice_from (4 + len) buf) + (4 + len) = length buf
         \<and> length (slice_from (4 + len) buf) < length buf)"
proof (intro conjI allI impI)
  from record_frame_loop [of buf "[]"] obtain r new where
    r: "data_loop record_frame buf [] = Inr (r, new)"
    and n: "length r + sum_list (map (\<lambda>f. 4 + length f) new) = length buf"
    by auto
  have "4 * length new \<le> length buf"
    using sum_frames_bound [of new] n by simp
  with r n data_loop_exit [OF r]
  show "\<exists>frames r. data_loop record_frame buf [] = Inr (r, frames)
      \<and> length r + sum_list (map (\<lambda>f. 4 + length f) frames) = length buf
      \<and> 4 * length frames \<le> length buf
      \<and> (length r < 4 \<or> (\<exists>len. readUInt32BE r = Some len \<and> length r < 4 + len))"
    by blast
next
  fix len
  assume a: "length buf \<ge> 4 \<and> readUInt32BE buf = Some len \<and> \<not> length buf < 4 + len"
  then show "data_loop h buf s =
           (case h (slice_range 4 (4 + len) buf) s of
              Inl e \<Rightarrow> Inl e
            | Inr s' \<Rightarrow> data_loop h (slice_from (4 + len) buf) s')"
    by (simp add: data_loop.simps [of h buf])
  from a show "length (slice_range 4 (4 + len) buf) = len"
    by (auto simp: slice_range_def)
  from a show "length (slice_from (4 + len) buf) + (4 + len) = length buf"
    by (simp add: slice_from_def)
  from a show "length (slice_from (4 + len) buf) < length buf"
    unfolding slice_from_def length_drop by arith
qed

theorem frame_loop_terminates_witness:
  "length [0, 0, 0, 2, 7, 8, 0, 0, 0, 5, 1 :: byte] \<ge> 4
   \<and> readUInt32BE [0, 0, 0, 2, 7, 8, 0, 0, 0, 5, 1] = Some 2
   \<and> \<not> length [0, 0, 0, 2, 7, 8, 0, 0, 0, 5, 1 :: byte] < 4 + 2
   \<and> data_loop record_frame [0, 0, 0, 2, 7, 8, 0, 0, 0, 5, 1] [] = Inr ([0, 0, 0, 5, 1], [[7, 8]])
   \<and> readUInt32BE [0, 0, 0, 5, 1] = Some 5"
proof -
  have a: "length [0, 0, 0, 2, 7, 8, 0, 0, 0, 5, 1 :: byte] \<ge> 4
     \<and> readUInt32BE [0, 0, 0, 2, 7, 8, 0, 0, 0, 5, 1] = Some 2
     \<and> \<not> length [0, 0, 0, 2, 7, 8, 0, 0, 0, 5, 1 :: byte] < 4 + 2"
    by simp
  from frame_loop_terminates [of "[0, 0, 0, 2, 7, 8, 0, 0, 0, 5, 1]" record_frame "[]"]
  have "\<forall>len. length [0, 0, 0, 2, 7, 8, 0, 0, 0, 5, 1 :: byte] \<ge> 4
          \<and> readUInt32BE [0, 0, 0, 2, 7, 8, 0, 0, 0, 5, 1] = Some len
          \<and> \<not> length [0, 0, 0, 2, 7, 8, 0, 0, 0, 5, 1 :: byte] < 4 + len \<longrightarrow>
         data_loop record_frame [0, 0, 0, 2, 7, 8, 0, 0, 0, 5, 1] [] =
           (case record_frame (slice_range 4 (4 + len) [0, 0, 0, 2, 7, 8, 0, 0, 0, 5, 1]) [] of
              Inl e \<Rightarrow> Inl e
            | Inr s' \<Rightarrow> data_loop record_frame (slice_from (4 + len) [0, 0, 0, 2, 7, 8, 0, 0, 0, 5, 1]) s')"
    by blast
  from this [rule_format, OF a]
  have "data_loop record_frame [0, 0, 0, 2, 7, 8, 0, 0, 0, 5, 1] [] =
      data_loop record_frame [0, 0, 0, 5, 1] [[7, 8]]"
    by (simp add: slice_range_def slice_from_def record_frame_def)
  then show ?thesis
    by (simp add: data_loop.simps [of _ "[0, 0, 0, 5, 1]"])
qed

subsection \<open>Handshake order\<close>








text \<open>
  The run that the statement leaves out: a question is open when the connection
  closes, and the operator answers after the reconnection. The request then goes to
  the second socket, on which nothing has been received.
\<close>

lemma answer_after_reconnect:
  "\<not> settled example_runtime example_types example_env
       [ConnectCallback, Data [0, 0, 0, 2, 8, 57], Data [0, 0, 0, 2, 8, 53],
        Data [0, 0, 0, 2, 8, 55], Data [0, 0, 0, 2, 8, 67], Close, Timer, ConnectCallback,
        Answer 0 ''EURUSD''] startTickStream
   \<and> run example_runtime example_types example_env
       [ConnectCallback, Data [0, 0, 0, 2, 8, 57], Data [0, 0, 0, 2, 8, 53],
        Data [0, 0, 0, 2, 8, 55], Data [0, 0, 0, 2, 8, 67], Close, Timer, ConnectCallback,
        Answer 0 ''EURUSD''] startTickStream
     = Inr \<lparr>sock = 2, recvBuffer = [], prompts = [], timers = 0,
            trace =
              [TlsConnect 1, Log Connected, Sent 1 VersionReq (Version 2 0 0),
               Recv 2105, Log VersionComplete,
               Sent 1 AppAuthReq (ClientCredentials (Some ''id'') (Some ''secret'')),
               Recv 2101, Log AppAuthenticated,
               Sent 1 AccountAuthReq (AccountToken (Some ''42'') (Some ''A1'')),
               Recv 2103, Log AccountAuthenticated,
               Sent 1 SymbolsListReq (Account (Some ''42'')),
               Recv 2115, Log (ReceivedSymbols 1),
               WriteSymbolsCsv [\<lparr>symbolId = 1, symbolName = ''EURUSD''\<rparr>], Log CsvWritten,
               Question, Log ClosedReconnecting, SetTimeout 5000, TlsConnect 2,
               Log Connected, Sent 2 VersionReq (Version 2 0 0),
               Sent 2 SubscribeSpotsReq (AccountSymbols (Some ''42'') [1])]\<rparr>"
  by (simp add: stream_eval)


subsection \<open>Reconnection\<close>

text \<open>
  C3. The claim asks for an empty receive buffer when a reconnection starts. The code
  keeps the buffer: \<^verbatim>\<open>connect\<close> assigns \<^verbatim>\<open>sock\<close> only. After a partial frame of six
  bytes and a close, the second connection starts with these six bytes in the buffer,
  for all decoders and payload types. In the instance, the \<^verbatim>\<open>VERSION_RES\<close> frame that
  the second connection then delivers is cut at the wrong place: the loop takes the
  two old bytes and three new ones as a frame of an unknown payload type and keeps
  the last three bytes waiting, so the answer to the second \<^verbatim>\<open>VersionReq\<close> is never
  dispatched.
\<close>

theorem reconnect_keeps_receive_buffer:
  "recvBuffer (connect s) = recvBuffer s
   \<and> run rt p e [ConnectCallback, Data [0, 0, 0, 5, 1, 2], Close, Timer] startTickStream
     = Inr \<lparr>sock = 2, recvBuffer = [0, 0, 0, 5, 1, 2], prompts = [], timers = 0,
            trace = [TlsConnect 1, Log Connected, Sent 1 VersionReq (Version 2 0 0),
                     Log ClosedReconnecting, SetTimeout 5000, TlsConnect 2]\<rparr>
   \<and> run example_runtime example_types example_env
       [ConnectCallback, Data [0, 0, 0, 5, 1, 2], Close, Timer,
        ConnectCallback, Data [0, 0, 0, 2, 8, 57]] startTickStream
     = Inr \<lparr>sock = 2, recvBuffer = [2, 8, 57], prompts = [], timers = 0,
            trace = [TlsConnect 1, Log Connected, Sent 1 VersionReq (Version 2 0 0),
                     Log ClosedReconnecting, SetTimeout 5000, TlsConnect 2,
                     Log Connected, Sent 2 VersionReq (Version 2 0 0), Recv 258,
                     Log (UnhandledPayload 258)]\<rparr>"
proof (intro conjI)
  show "recvBuffer (connect s) = recvBuffer s"
    by (simp add: connect_def emit_def)
  show "run rt p e [ConnectCallback, Data [0, 0, 0, 5, 1, 2], Close, Timer] startTickStream
     = Inr \<lparr>sock = 2, recvBuffer = [0, 0, 0, 5, 1, 2], prompts = [], timers = 0,
            trace = [TlsConnect 1, Log Connected, Sent 1 VersionReq (Version 2 0 0),
                     Log ClosedReconnecting, SetTimeout 5000, TlsConnect 2]\<rparr>"
    by (simp add: stream_eval)
  show "run example_runtime example_types example_env
       [ConnectCallback, Data [0, 0, 0, 5, 1, 2], Close, Timer,
        ConnectCallback, Data [0, 0, 0, 2, 8, 57]] startTickStream
     = Inr \<lparr>sock = 2, recvBuffer = [2, 8, 57], prompts = [], timers = 0,
            trace = [TlsConnect 1, Log Connected, Sent 1 VersionReq (Version 2 0 0),
                     Log ClosedReconnecting, SetTimeout 5000, TlsConnect 2,
                     Log Connected, Sent 2 VersionReq (Version 2 0 0), Recv 258,
                     Log (UnhandledPayload 258)]\<rparr>"
    by (simp add: stream_eval)
qed

subsection \<open>Error responses\<close>

lemma no_fetch_run:
  "\<forall>a b c. Fetch a b c \<notin> set (trace (s :: state)) \<Longrightarrow>
     \<forall>a b c. Fetch a b c \<notin> set (trace (final (run rt p e evs s)))"
proof (rule run_invariant [where P = "\<lambda>s :: state. \<forall>a b c. Fetch a b c \<notin> set (trace s)"])
  fix m and s :: state
  assume "\<forall>a b c. Fetch a b c \<notin> set (trace s)"
  then show "\<forall>a b c. Fetch a b c \<notin> set (trace (final (on_frame rt p e m s)))"
    by (auto simp: on_frame_def dispatch_def final_def emit_def send_def
        on_version_def on_auth_app_def on_auth_account_def on_symbols_list_def on_spot_def
        on_error_res_def Let_def split: option.splits)
next
  fix ev and s :: state
  assume "\<forall>a b c. Fetch a b c \<notin> set (trace s)" "\<forall>c. ev \<noteq> Data c"
  then show "\<forall>a b c. Fetch a b c \<notin> set (trace (final (step rt p e ev s)))"
    by (cases ev)
       (auto simp: step_def final_def emit_def send_def connect_def on_answer_def Let_def
          split: option.splits)
next
  fix s :: state and b
  assume "\<forall>a b c. Fetch a b c \<notin> set (trace s)"
  then show "\<forall>a ba c. Fetch a ba c \<notin> set (trace (s\<lparr>recvBuffer := b\<rparr>))" by simp
qed

lemma on_frame_error_res:
  assumes "ProtoMessage_decode rt body = Some w"
    and "payloadType w = PROTO_OA_ERROR_RES p"
    and "payloadType w \<notin> {PROTO_OA_VERSION_RES p, PROTO_OA_APPLICATION_AUTH_RES p,
           PROTO_OA_ACCOUNT_AUTH_RES p, PROTO_OA_SYMBOLS_LIST_RES p, PROTO_OA_SPOT_EVENT p}"
    and "ErrorRes_decode rt (payload w) = Some err"
  shows "on_frame rt p e body s =
           Inr (emit [Recv (payloadType w), Log (ApiError (errorCode err) (description err))] s)"
  using assms by (simp add: on_frame_def dispatch_def on_error_res_def emit_def)

text \<open>
  C4, as the code has it. An \<^verbatim>\<open>ErrorRes\<close> frame, whatever its error code and whenever
  it arrives, is only reported: the handler logs the code and the description, sends
  nothing and leaves the socket, the buffer and the open questions as they are. No run
  of the stream ever requests a token: the only refresh is the one made before the
  stream starts.
\<close>

theorem error_response_is_only_reported:
  "(ProtoMessage_decode rt body = Some w
      \<and> payloadType w = PROTO_OA_ERROR_RES p
      \<and> payloadType w \<notin> {PROTO_OA_VERSION_RES p, PROTO_OA_APPLICATION_AUTH_RES p,
           PROTO_OA_ACCOUNT_AUTH_RES p, PROTO_OA_SYMBOLS_LIST_RES p, PROTO_OA_SPOT_EVENT p}
      \<and> ErrorRes_decode rt (payload w) = Some err \<longrightarrow>
    on_frame rt p e body s =
      Inr (emit [Recv (payloadType w), Log (ApiError (errorCode err) (description err))] s))
   \<and> (\<forall>a b c. Fetch a b c \<notin> set (trace (final (run rt p e events startTickStream))))"
proof (intro conjI impI)
  assume "ProtoMessage_decode rt body = Some w
      \<and> payloadType w = PROTO_OA_ERROR_RES p
      \<and> payloadType w \<notin> {PROTO_OA_VERSION_RES p, PROTO_OA_APPLICATION_AUTH_RES p,
           PROTO_OA_ACCOUNT_AUTH_RES p, PROTO_OA_SYMBOLS_LIST_RES p, PROTO_OA_SPOT_EVENT p}
      \<and> ErrorRes_decode rt (payload w) = Some err"
  then show "on_frame rt p e body s =
      Inr (emit [Recv (payloadType w), Log (ApiError (errorCode err) (description err))] s)"
    by (intro on_frame_error_res) simp_all
next
  have "\<forall>a b c. Fetch a b c \<notin> set (trace startTickStream)"
    by (simp add: startTickStream_def connect_def emit_def)
  then show "\<forall>a b c. Fetch a b c \<notin> set (trace (final (run rt p e events startTickStream)))"
    by (rule no_fetch_run)
qed

theorem error_response_is_only_reported_witness:
  "ProtoMessage_decode example_runtime [8, 94] = Some \<lparr>payloadType = 2142, payload = []\<rparr>
   \<and> ErrorRes_decode example_runtime [] =
       Some \<lparr>errorCode = ''CH_ACCESS_TOKEN_INVALID'', description = ''expired''\<rparr>
   \<and> on_frame example_runtime example_types example_env [8, 94] startTickStream =
       Inr (emit [Recv 2142, Log (ApiError ''CH_ACCESS_TOKEN_INVALID'' ''expired'')]
              startTickStream)"
proof -
  have d: "ProtoMessage_decode example_runtime [8, 94] = Some \<lparr>payloadType = 2142, payload = []\<rparr>"
    by (simp add: example_runtime_def)
  have r: "ErrorRes_decode example_runtime [] =
       Some \<lparr>errorCode = ''CH_ACCESS_TOKEN_INVALID'', description = ''expired''\<rparr>"
    by (simp add: example_runtime_def)
  from error_response_is_only_reported
    [of example_runtime "[8, 94]" "\<lparr>payloadType = 2142, payload = []\<rparr>" example_types
        "\<lparr>errorCode = ''CH_ACCESS_TOKEN_INVALID'', description = ''expired''\<rparr>"
        example_env startTickStream "[]"]
  show ?thesis using d r by (simp add: example_types_def)
qed

text \<open>
  C4 as stated fails: an error response whose code says that the access token is
  invalid is followed by no refresh attempt. The trace of the run holds the log line
  and no \<open>Fetch\<close>.
\<close>

theorem error_response_counterexample:
  "run example_runtime example_types example_env
     [ConnectCallback, Data [0, 0, 0, 2, 8, 94]] startTickStream
   = Inr \<lparr>sock = 1, recvBuffer = [], prompts = [], timers = 0,
          trace = [TlsConnect 1, Log Connected, Sent 1 VersionReq (Version 2 0 0),
                   Recv 2142, Log (ApiError ''CH_ACCESS_TOKEN_INVALID'' ''expired'')]\<rparr>"
  by (simp add: stream_eval)

subsection \<open>Unrecognized payload types\<close>

text \<open>
  C5. A frame whose envelope decodes to a payload type that is none of the six the
  switch handles is logged with its wire code and ignored: the loop body returns
  normally, the state changes by the log line only (same socket, no timer, nothing
  sent), and the bytes that follow the frame are processed exactly as they would be
  after the log line alone.
\<close>

theorem unrecognized_payload_ignored:
  assumes "ProtoMessage_decode rt body = Some w"
    and "payloadType w \<notin> {PROTO_OA_VERSION_RES p, PROTO_OA_APPLICATION_AUTH_RES p,
           PROTO_OA_ACCOUNT_AUTH_RES p, PROTO_OA_SYMBOLS_LIST_RES p, PROTO_OA_SPOT_EVENT p,
           PROTO_OA_ERROR_RES p}"
    and "wire body = Some bytes"
  shows "on_frame rt p e body s =
           Inr (emit [Recv (payloadType w), Log (UnhandledPayload (payloadType w))] s)
     \<and> on_data rt p e (bytes @ rest) (s\<lparr>recvBuffer := []\<rparr>) =
         on_data rt p e rest
           (emit [Recv (payloadType w), Log (UnhandledPayload (payloadType w))]
              (s\<lparr>recvBuffer := []\<rparr>))"
proof
  show f: "on_frame rt p e body s =
           Inr (emit [Recv (payloadType w), Log (UnhandledPayload (payloadType w))] s)" for s
    using assms(1,2) by (simp add: on_frame_def dispatch_def emit_def)
  show "on_data rt p e (bytes @ rest) (s\<lparr>recvBuffer := []\<rparr>) =
         on_data rt p e rest
           (emit [Recv (payloadType w), Log (UnhandledPayload (payloadType w))]
              (s\<lparr>recvBuffer := []\<rparr>))"
  proof -
    let ?es = "[Recv (payloadType w), Log (UnhandledPayload (payloadType w))]"
    from assms(3) obtain header where "writeUInt32BE (length body) = Some header"
      and bytes: "bytes = header @ body"
      by (auto simp: wire_def split: option.splits)
    then have "length bytes = 4 + length body"
      using write_length by simp
    then have cut: "slice_from (4 + length body) (bytes @ rest) = rest"
      by (simp add: slice_from_def)
    have body: "loop_body rt p e body (s\<lparr>recvBuffer := bytes @ rest\<rparr>) =
        Inr (emit ?es (s\<lparr>recvBuffer := rest\<rparr>))"
      by (simp add: loop_body_def f cut)
    have "data_loop (loop_body rt p e) (bytes @ rest) (s\<lparr>recvBuffer := bytes @ rest\<rparr>) =
        data_loop (loop_body rt p e) rest (emit ?es (s\<lparr>recvBuffer := rest\<rparr>))"
      using data_loop_wire [OF assms(3), of "loop_body rt p e" rest
              "s\<lparr>recvBuffer := bytes @ rest\<rparr>"]
      by (simp add: body)
    moreover have "(emit ?es (s\<lparr>recvBuffer := []\<rparr>))\<lparr>recvBuffer := rest\<rparr> =
        emit ?es (s\<lparr>recvBuffer := rest\<rparr>)"
      by (simp add: emit_def)
    moreover have "recvBuffer (emit ?es (s\<lparr>recvBuffer := []\<rparr>)) = []"
      by (simp add: emit_def)
    ultimately show ?thesis
      by (simp add: on_data_def on_chunk_def)
  qed
qed

theorem unrecognized_payload_ignored_witness:
  "ProtoMessage_decode example_runtime [39, 15, 7] = Some \<lparr>payloadType = 9999, payload = [7]\<rparr>
   \<and> 9999 \<notin> {PROTO_OA_VERSION_RES example_types, PROTO_OA_APPLICATION_AUTH_RES example_types,
           PROTO_OA_ACCOUNT_AUTH_RES example_types, PROTO_OA_SYMBOLS_LIST_RES example_types,
           PROTO_OA_SPOT_EVENT example_types, PROTO_OA_ERROR_RES example_types}
   \<and> wire [39, 15, 7] = Some [0, 0, 0, 3, 39, 15, 7]
   \<and> on_data example_runtime example_types example_env
        ([0, 0, 0, 3, 39, 15, 7] @ [0, 0, 0, 2, 8, 83]) (startTickStream\<lparr>recvBuffer := []\<rparr>)
      = Inr \<lparr>sock = 1, recvBuffer = [], prompts = [], timers = 0,
             trace = [TlsConnect 1, Recv 9999, Log (UnhandledPayload 9999), Recv 2131,
                      Log (SpotLine \<lparr>spotSymbolId = 1, spotSymbolName = None,
                                     bid = Some 108500, ask = Some 108510\<rparr>)]\<rparr>"
proof -
  have d: "ProtoMessage_decode example_runtime [39, 15, 7] = Some \<lparr>payloadType = 9999, payload = [7]\<rparr>"
    by (simp add: example_runtime_def)
  have u: "payloadType \<lparr>payloadType = 9999, payload = [7]\<rparr> \<notin>
          {PROTO_OA_VERSION_RES example_types, PROTO_OA_APPLICATION_AUTH_RES example_types,
           PROTO_OA_ACCOUNT_AUTH_RES example_types, PROTO_OA_SYMBOLS_LIST_RES example_types,
           PROTO_OA_SPOT_EVENT example_types, PROTO_OA_ERROR_RES example_types}"
    by (simp add: example_types_def)
  have w: "wire [39, 15, 7] = Some [0, 0, 0, 3, 39, 15, 7]"
    by (simp add: wire_def writeUInt32BE_def)
  from unrecognized_payload_ignored [OF d u w, of example_env startTickStream "[0, 0, 0, 2, 8, 83]"]
  have "on_data example_runtime example_types example_env
        ([0, 0, 0, 3, 39, 15, 7] @ [0, 0, 0, 2, 8, 83]) (startTickStream\<lparr>recvBuffer := []\<rparr>)
      = on_data example_runtime example_types example_env [0, 0, 0, 2, 8, 83]
          (emit [Recv 9999, Log (UnhandledPayload 9999)] (startTickStream\<lparr>recvBuffer := []\<rparr>))"
    by simp
  also have "\<dots> = Inr \<lparr>sock = 1, recvBuffer = [], prompts = [], timers = 0,
             trace = [TlsConnect 1, Recv 9999, Log (UnhandledPayload 9999), Recv 2131,
                      Log (SpotLine \<lparr>spotSymbolId = 1, spotSymbolName = None,
                                     bid = Some 108500, ask = Some 108510\<rparr>)]\<rparr>"
    by (simp add: stream_eval)
  finally show ?thesis using d u w by simp
qed

subsection \<open>Reaction to a frame\<close>

text \<open>
  C9, as the code has it. The program keeps no handshake state, and what it does with a
  frame depends on the frame alone: from two states with the same socket, whatever
  has been sent and received before, the same frame adds the same effects and ends
  the same way. A \<^verbatim>\<open>VERSION_RES\<close> frame always sends \<^verbatim>\<open>AppAuthReq\<close>, an
  \<^verbatim>\<open>APPLICATION_AUTH_RES\<close> frame always sends \<^verbatim>\<open>AccountAuthReq\<close>, an
  \<^verbatim>\<open>ACCOUNT_AUTH_RES\<close> frame always sends \<^verbatim>\<open>SymbolsListReq\<close>.
\<close>

theorem reaction_ignores_history:
  "(sock s1 = sock s2 \<longrightarrow>
      emitted s1 (on_frame rt p e m s1) = emitted s2 (on_frame rt p e m s2)
      \<and> isl (on_frame rt p e m s1) = isl (on_frame rt p e m s2))
   \<and> (ProtoMessage_decode rt m = Some w \<and> payloadType w = PROTO_OA_VERSION_RES p \<longrightarrow>
        on_frame rt p e m s =
          Inr (emit [Recv (payloadType w), Log VersionComplete,
                     Sent (sock s) AppAuthReq
                       (ClientCredentials (CTRADER_CLIENT_ID e) (CTRADER_CLIENT_SECRET e))] s))
   \<and> (ProtoMessage_decode rt m = Some w \<and> payloadType w = PROTO_OA_APPLICATION_AUTH_RES p
        \<and> payloadType w \<noteq> PROTO_OA_VERSION_RES p \<longrightarrow>
        on_frame rt p e m s =
          Inr (emit [Recv (payloadType w), Log AppAuthenticated,
                     Sent (sock s) AccountAuthReq
                       (AccountToken (CTRADER_ACCOUNT_ID e) (CTRADER_ACCESS_TOKEN e))] s))
   \<and> (ProtoMessage_decode rt m = Some w \<and> payloadType w = PROTO_OA_ACCOUNT_AUTH_RES p
        \<and> payloadType w \<notin> {PROTO_OA_VERSION_RES p, PROTO_OA_APPLICATION_AUTH_RES p} \<longrightarrow>
        on_frame rt p e m s =
          Inr (emit [Recv (payloadType w), Log AccountAuthenticated,
                     Sent (sock s) SymbolsListReq (Account (CTRADER_ACCOUNT_ID e))] s))"
proof (intro conjI impI)
  assume "sock s1 = sock s2"
  then show "emitted s1 (on_frame rt p e m s1) = emitted s2 (on_frame rt p e m s2)"
    by (simp add: emitted_def on_frame_def dispatch_def final_def emit_def send_def
        on_version_def on_auth_app_def on_auth_account_def on_symbols_list_def on_spot_def
        on_error_res_def Let_def split: option.splits)
  show "isl (on_frame rt p e m s1) = isl (on_frame rt p e m s2)"
    by (simp add: on_frame_def dispatch_def split: option.splits)
qed (simp_all add: on_frame_def dispatch_def emit_def send_def
        on_version_def on_auth_app_def on_auth_account_def Let_def)

theorem reaction_ignores_history_witness:
  "sock startTickStream = sock (emit [Log Connected] startTickStream)
   \<and> emitted startTickStream
       (on_frame example_runtime example_types example_env [8, 55] startTickStream)
     = [Recv 2103, Log AccountAuthenticated, Sent 1 SymbolsListReq (Account (Some ''42''))]
   \<and> emitted (emit [Log Connected] startTickStream)
       (on_frame example_runtime example_types example_env [8, 55]
          (emit [Log Connected] startTickStream))
     = [Recv 2103, Log AccountAuthenticated, Sent 1 SymbolsListReq (Account (Some ''42''))]
   \<and> ProtoMessage_decode example_runtime [8, 57] = Some \<lparr>payloadType = 2105, payload = []\<rparr>
   \<and> on_frame example_runtime example_types example_env [8, 57] startTickStream
     = Inr (emit [Recv 2105, Log VersionComplete,
                  Sent 1 AppAuthReq (ClientCredentials (Some ''id'') (Some ''secret''))]
              startTickStream)"
proof -
  have s: "sock startTickStream = sock (emit [Log Connected] startTickStream)"
    by (simp add: emit_def)
  have e1: "emitted startTickStream
       (on_frame example_runtime example_types example_env [8, 55] startTickStream)
     = [Recv 2103, Log AccountAuthenticated, Sent 1 SymbolsListReq (Account (Some ''42''))]"
    by (simp add: emitted_def stream_eval)
  have d: "ProtoMessage_decode example_runtime [8, 57] = Some \<lparr>payloadType = 2105, payload = []\<rparr>"
    by (simp add: example_runtime_def)
  note r = reaction_ignores_history
    [where ?s1.0 = startTickStream and ?s2.0 = "emit [Log Connected] startTickStream"
       and rt = example_runtime and p = example_types and e = example_env and m = "[8, 55]"]
  note r' = reaction_ignores_history
    [where rt = example_runtime and p = example_types and e = example_env and m = "[8, 57]"
       and w = "\<lparr>payloadType = 2105, payload = []\<rparr>" and s = startTickStream]
  from r s e1 have e2: "emitted (emit [Log Connected] startTickStream)
       (on_frame example_runtime example_types example_env [8, 55]
          (emit [Log Connected] startTickStream))
     = [Recv 2103, Log AccountAuthenticated, Sent 1 SymbolsListReq (Account (Some ''42''))]"
    by simp
  from r' d have v: "on_frame example_runtime example_types example_env [8, 57] startTickStream
     = Inr (emit [Recv 2105, Log VersionComplete,
                  Sent 1 AppAuthReq (ClientCredentials (Some ''id'') (Some ''secret''))]
              startTickStream)"
    by (simp add: example_types_def example_env_def startTickStream_def connect_def emit_def)
  from s e1 e2 d v show ?thesis by simp
qed

text \<open>
  C9 as stated fails: after \<^verbatim>\<open>VERSION_RES\<close> has been answered with \<^verbatim>\<open>AppAuthReq\<close>, the
  expected response is \<^verbatim>\<open>APPLICATION_AUTH_RES\<close>. A second \<^verbatim>\<open>VERSION_RES\<close> is not
  ignored: \<^verbatim>\<open>AppAuthReq\<close> is sent again.
\<close>

theorem unexpected_response_counterexample:
  "run example_runtime example_types example_env
     [ConnectCallback, Data [0, 0, 0, 2, 8, 57], Data [0, 0, 0, 2, 8, 57]] startTickStream
   = Inr \<lparr>sock = 1, recvBuffer = [], prompts = [], timers = 0,
          trace = [TlsConnect 1, Log Connected, Sent 1 VersionReq (Version 2 0 0),
                   Recv 2105, Log VersionComplete,
                   Sent 1 AppAuthReq (ClientCredentials (Some ''id'') (Some ''secret'')),
                   Recv 2105, Log VersionComplete,
                   Sent 1 AppAuthReq (ClientCredentials (Some ''id'') (Some ''secret''))]\<rparr>"
  by (simp add: stream_eval)

subsection \<open>Declared frame length\<close>

text \<open>
  C8, as the code has it. There is no maximum frame size. When the declared length,
  whatever its value below \<open>2 ^ 32\<close>, asks for more bytes than the buffer and the new
  chunk hold, the data handler raises nothing, takes no frame and keeps every byte:
  the buffer becomes the old buffer followed by the chunk, and the socket stays as it
  is.
\<close>

theorem declared_length_is_not_capped:
  "length buf \<ge> 4 \<and> readUInt32BE buf = Some len \<and> length (buf @ chunk) < 4 + len \<longrightarrow>
     len < 2 ^ 32
     \<and> on_chunk h chunk (buf, s) = Inr (buf @ chunk, s)
     \<and> (recvBuffer st = buf \<longrightarrow>
          on_data rt p e chunk st = Inr (st\<lparr>recvBuffer := buf @ chunk\<rparr>))"
proof (intro impI conjI)
  assume a: "length buf \<ge> 4 \<and> readUInt32BE buf = Some len \<and> length (buf @ chunk) < 4 + len"
  then show "len < 2 ^ 32" using readUInt32BE_bound by blast
  from a have r: "readUInt32BE (buf @ chunk) = Some len"
    by (simp add: readUInt32BE_append)
  with a have stuck: "data_loop g (buf @ chunk) t = Inr (buf @ chunk, t)" for g :: "byte list \<Rightarrow> 'x \<Rightarrow> 'x result" and t
    by (intro data_loop_stuck) blast
  show "on_chunk h chunk (buf, s) = Inr (buf @ chunk, s)"
    by (simp add: on_chunk_def stuck)
  assume "recvBuffer st = buf"
  then show "on_data rt p e chunk st = Inr (st\<lparr>recvBuffer := buf @ chunk\<rparr>)"
    by (simp add: on_data_def on_chunk_def stuck)
qed

theorem declared_length_is_not_capped_witness:
  "length [255, 255, 255, 255 :: byte] \<ge> 4
   \<and> readUInt32BE [255, 255, 255, 255] = Some 4294967295
   \<and> length ([255, 255, 255, 255 :: byte] @ [0]) < 4 + 4294967295
   \<and> on_chunk record_frame [0] ([255, 255, 255, 255], []) = Inr ([255, 255, 255, 255, 0], [])
   \<and> on_data example_runtime example_types example_env [0]
        (startTickStream\<lparr>recvBuffer := [255, 255, 255, 255]\<rparr>)
      = Inr (startTickStream\<lparr>recvBuffer := [255, 255, 255, 255, 0]\<rparr>)"
proof -
  have a: "length [255, 255, 255, 255 :: byte] \<ge> 4
     \<and> readUInt32BE [255, 255, 255, 255] = Some 4294967295
     \<and> length ([255, 255, 255, 255 :: byte] @ [0]) < 4 + 4294967295"
    by simp
  from declared_length_is_not_capped
    [of "[255, 255, 255, 255]" 4294967295 "[0]" record_frame "[]"
        "startTickStream\<lparr>recvBuffer := [255, 255, 255, 255]\<rparr>"
        example_runtime example_types example_env] a
  show ?thesis by simp
qed

text \<open>
  C8 as stated fails: a length field of \<open>4294967295\<close>, the largest there is, raises no
  error. The five bytes stay in the buffer and the connection goes on.
\<close>

theorem frame_too_large_counterexample:
  "readUInt32BE [255, 255, 255, 255, 0] = Some 4294967295
   \<and> run example_runtime example_types example_env
       [ConnectCallback, Data [255, 255, 255, 255, 0]] startTickStream
     = Inr \<lparr>sock = 1, recvBuffer = [255, 255, 255, 255, 0], prompts = [], timers = 0,
            trace = [TlsConnect 1, Log Connected, Sent 1 VersionReq (Version 2 0 0)]\<rparr>"
  by (simp add: stream_eval)

subsection \<open>Token refresh\<close>

lemma refresh_rejected:
  "responses w = Response False st txt j # rest \<Longrightarrow>
     refreshAccessToken e w =
       \<lparr>ending = Exited 1, vars = e, world_after = w\<lparr>responses := rest\<rparr>,
        effects = [Fetch (CTRADER_CLIENT_ID e) (CTRADER_CLIENT_SECRET e) (CTRADER_REFRESH_TOKEN e),
                   Log (TokenRefreshFailed st txt)]\<rparr>"
  by (simp add: refreshAccessToken_def)

text \<open>
  C7, as the code has it. When the token endpoint answers with a response that is not
  ok, the function logs the status and the body and exits the process with status 1
  at once: one request has been made, the answers the endpoint would give to further
  requests are never asked for, and the variables and the \<^verbatim>\<open>.env\<close> file are as before.
  There is no retry and no backoff.
\<close>

theorem refresh_fatal_on_first_failure:
  "responses w = Response False st txt j # rest \<Longrightarrow>
     ending (refreshAccessToken e w) = Exited 1
     \<and> effects (refreshAccessToken e w) =
         [Fetch (CTRADER_CLIENT_ID e) (CTRADER_CLIENT_SECRET e) (CTRADER_REFRESH_TOKEN e),
          Log (TokenRefreshFailed st txt)]
     \<and> responses (world_after (refreshAccessToken e w)) = rest
     \<and> vars (refreshAccessToken e w) = e
     \<and> env_file (world_after (refreshAccessToken e w)) = env_file w"
  by (simp add: refresh_rejected)

theorem refresh_fatal_on_first_failure_witness:
  "responses \<lparr>responses = [Response False 401 ''denied'' None],
              env_file = Some ''CTRADER_ACCESS_TOKEN=A1'', writable = True\<rparr>
     = Response False 401 ''denied'' None # []
   \<and> ending (refreshAccessToken example_env
        \<lparr>responses = [Response False 401 ''denied'' None],
         env_file = Some ''CTRADER_ACCESS_TOKEN=A1'', writable = True\<rparr>) = Exited 1
   \<and> effects (refreshAccessToken example_env
        \<lparr>responses = [Response False 401 ''denied'' None],
         env_file = Some ''CTRADER_ACCESS_TOKEN=A1'', writable = True\<rparr>)
      = [Fetch (Some ''id'') (Some ''secret'') (Some ''R1''),
         Log (TokenRefreshFailed 401 ''denied'')]"
proof -
  have r: "responses \<lparr>responses = [Response False 401 ''denied'' None],
              env_file = Some ''CTRADER_ACCESS_TOKEN=A1'', writable = True\<rparr>
     = Response False 401 ''denied'' None # []"
    by simp
  from refresh_fatal_on_first_failure [OF r, of example_env] r
  show ?thesis by (simp add: example_env_def)
qed

text \<open>
  C7 as stated fails: with an endpoint that rejects the first request and would accept
  the second, the process exits after the first answer. The second answer is still
  unasked.
\<close>

theorem refresh_retry_counterexample:
  "refreshAccessToken example_env
     \<lparr>responses = [Response False 503 ''busy'' None,
                   Response True 200 []
                     (Some \<lparr>access_token = Some ''A2'', refresh_token = Some ''R2''\<rparr>)],
      env_file = Some ''CTRADER_ACCESS_TOKEN=A1'', writable = True\<rparr>
   = \<lparr>ending = Exited 1, vars = example_env,
      world_after =
        \<lparr>responses = [Response True 200 []
                        (Some \<lparr>access_token = Some ''A2'', refresh_token = Some ''R2''\<rparr>)],
         env_file = Some ''CTRADER_ACCESS_TOKEN=A1'', writable = True\<rparr>,
      effects = [Fetch (Some ''id'') (Some ''secret'') (Some ''R1''),
                 Log (TokenRefreshFailed 503 ''busy'')]\<rparr>"
  by (simp add: refreshAccessToken_def example_env_def)







end
